theory Spec2Isabelle
  imports Main "HOL-Library.Word"
begin

unbundle bit_operations_syntax

section \<open>JavaScript values used by the page\<close>

text \<open>
  A JavaScript string is a sequence of UTF-16 code units.  String literals of the source
  are ASCII, written here as \<open>lit ''...''\<close>.  The empty string is the only falsy string.
\<close>

type_synonym js_string = "nat list"

definition lit :: "string \<Rightarrow> js_string" where
  "lit s = map of_char s"

text \<open>Template literal \<open>${n}\<close> for a non-negative integer: its decimal digits.\<close>

fun decimal :: "nat \<Rightarrow> js_string" where
  "decimal n = (if n < 10 then [48 + n] else decimal (n div 10) @ [48 + n mod 10])"

declare decimal.simps [simp del]

text \<open>
  A conversation id as the database hands it out (a number or a string), or \<open>null\<close>.
  \<open>truthy_id\<close> is JavaScript's truthiness: \<open>null\<close>, \<open>0\<close> and \<open>""\<close> are falsy.
  Equality of the datatype is \<open>===\<close>.
\<close>

datatype js_id = IdNull | IdNum int | IdStr js_string

fun truthy_id :: "js_id \<Rightarrow> bool" where
  "truthy_id IdNull = False"
| "truthy_id (IdNum n) = (n \<noteq> 0)"
| "truthy_id (IdStr s) = (s \<noteq> [])"

section \<open>Data model\<close>

record message =
  role :: js_string
  content :: js_string

record conversation =
  id_conv :: js_id
  query_text :: js_string
  created_at :: js_string

text \<open>The part of the auth provider's session the page reads: \<open>session.user.id\<close>.\<close>

record user_session =
  user_id :: js_string

text \<open>The \<open>useState\<close> cells of \<open>HomePage\<close>.\<close>

record app_state =
  session :: "user_session option"
  messages :: "message list"
  query :: js_string
  history :: "conversation list"
  currentConversationId :: js_id
  isLoading :: bool
  isLoadingHistory :: bool
  isLoadingConversation :: bool
  sidebarOpen :: bool

text \<open>
  Calls that leave the page, in the order they are issued: requests to the backend and to
  the database, and the browser's \<open>confirm\<close>, \<open>alert\<close> and \<open>console.error\<close>.
\<close>

datatype effect =
    PostResearch js_string js_string js_id
  | SelectHistory js_string
  | GetConversation js_id
  | DeleteMessages js_id
  | DeleteConversationRow js_id
  | Confirm js_string
  | Alert js_string
  | ConsoleError js_string js_string

section \<open>The platform's \<open>TextDecoder\<close> for UTF-8\<close>

text \<open>
  \<open>TextDecoder\<close> is not code of the repository but of the JavaScript platform.  It is
  modelled after the WHATWG Encoding Standard: the UTF-8 decoder's handler with its five
  state variables, the replacement error mode (an error emits U+FFFD), the end-of-queue
  step that runs only when \<open>stream\<close> is not set, and the removal of a leading byte order
  mark when the scalar values are serialised.
\<close>

type_synonym byte = "8 word"

record utf8_decoder =
  code_point :: nat
  bytes_seen :: nat
  bytes_needed :: nat
  lower_boundary :: byte
  upper_boundary :: byte

definition new_utf8_decoder :: utf8_decoder where
  "new_utf8_decoder =
     \<lparr>code_point = 0, bytes_seen = 0, bytes_needed = 0,
      lower_boundary = 0x80, upper_boundary = 0xBF\<rparr>"

text \<open>Step 3 of the handler: no sequence is open and \<open>b\<close> is a lead byte or ASCII.\<close>

definition handler_lead :: "utf8_decoder \<Rightarrow> byte \<Rightarrow> utf8_decoder \<times> nat list" where
  "handler_lead d b =
     (if b \<le> 0x7F then (d, [unat b])
      else if 0xC2 \<le> b \<and> b \<le> 0xDF then
        (d\<lparr>bytes_needed := 1, code_point := unat (b AND 0x1F)\<rparr>, [])
      else if 0xE0 \<le> b \<and> b \<le> 0xEF then
        (let d1 = (if b = 0xE0 then d\<lparr>lower_boundary := 0xA0\<rparr> else d);
             d2 = (if b = 0xED then d1\<lparr>upper_boundary := 0x9F\<rparr> else d1)
         in (d2\<lparr>bytes_needed := 2, code_point := unat (b AND 0xF)\<rparr>, []))
      else if 0xF0 \<le> b \<and> b \<le> 0xF4 then
        (let d1 = (if b = 0xF0 then d\<lparr>lower_boundary := 0x90\<rparr> else d);
             d2 = (if b = 0xF4 then d1\<lparr>upper_boundary := 0x8F\<rparr> else d1)
         in (d2\<lparr>bytes_needed := 3, code_point := unat (b AND 0x7)\<rparr>, []))
      else (d, [0xFFFD]))"

text \<open>
  The handler on one byte.  A byte outside the boundaries ends the open sequence with an
  error and is then processed again (it was restored to the queue) by step 3.
\<close>

definition utf8_handler :: "utf8_decoder \<Rightarrow> byte \<Rightarrow> utf8_decoder \<times> nat list" where
  "utf8_handler d b =
     (if bytes_needed d = 0 then handler_lead d b
      else if \<not> (lower_boundary d \<le> b \<and> b \<le> upper_boundary d) then
        (let (d', out) = handler_lead new_utf8_decoder b in (d', 0xFFFD # out))
      else
        (let d1 = d\<lparr>lower_boundary := 0x80, upper_boundary := 0xBF,
                    code_point := code_point d * 64 + unat (b AND 0x3F),
                    bytes_seen := bytes_seen d + 1\<rparr>
         in if bytes_seen d1 \<noteq> bytes_needed d1 then (d1, [])
            else (d1\<lparr>code_point := 0, bytes_needed := 0, bytes_seen := 0\<rparr>, [code_point d1])))"

text \<open>Running the handler over the bytes of the I/O queue, collecting scalar values.\<close>

fun utf8_run :: "utf8_decoder \<Rightarrow> byte list \<Rightarrow> utf8_decoder \<times> nat list" where
  "utf8_run d [] = (d, [])"
| "utf8_run d (b # bs) =
     (let (d1, out1) = utf8_handler d b;
          (d2, out2) = utf8_run d1 bs
      in (d2, out1 @ out2))"

text \<open>End-of-queue: an open sequence is an error.\<close>

definition utf8_end_of_queue :: "utf8_decoder \<Rightarrow> utf8_decoder \<times> nat list" where
  "utf8_end_of_queue d =
     (if bytes_needed d \<noteq> 0 then (d\<lparr>bytes_needed := 0\<rparr>, [0xFFFD]) else (d, []))"

text \<open>A scalar value as UTF-16 code units.\<close>

definition utf16 :: "nat \<Rightarrow> js_string" where
  "utf16 cp =
     (if cp < 0x10000 then [cp]
      else [0xD800 + (cp - 0x10000) div 0x400, 0xDC00 + (cp - 0x10000) mod 0x400])"

record text_decoder =
  decoder :: utf8_decoder
  bom_seen :: bool
  do_not_flush :: bool

definition new_TextDecoder :: text_decoder where
  "new_TextDecoder = \<lparr>decoder = new_utf8_decoder, bom_seen = False, do_not_flush = False\<rparr>"

text \<open>
  Serialising the scalar values of one call: the first scalar value the decoder ever
  emits sets the BOM-seen flag and is dropped when it is U+FEFF.
\<close>

definition serialize :: "bool \<Rightarrow> nat list \<Rightarrow> bool \<times> js_string" where
  "serialize seen out =
     (case out of
        [] \<Rightarrow> (seen, [])
      | x # rest \<Rightarrow>
          (True, concat (map utf16 (if \<not> seen \<and> x = 0xFEFF then rest else x # rest))))"

text \<open>\<open>decoder.decode(input, {stream})\<close>.\<close>

definition decode :: "text_decoder \<Rightarrow> byte list \<Rightarrow> bool \<Rightarrow> text_decoder \<times> js_string" where
  "decode td input stream =
     (let td1 = (if \<not> do_not_flush td then new_TextDecoder else td);
          (d1, out1) = utf8_run (decoder td1) input;
          (d2, out2) = (if stream then (d1, []) else utf8_end_of_queue d1);
          (seen, text) = serialize (bom_seen td1) (out1 @ out2)
      in (\<lparr>decoder = d2, bom_seen = seen, do_not_flush = stream\<rparr>, text))"

text \<open>\<open>new TextDecoder().decode(bytes)\<close>: the UTF-8 decoding of a byte sequence.\<close>

definition utf8_decode :: "byte list \<Rightarrow> js_string" where
  "utf8_decode bytes = snd (decode new_TextDecoder bytes False)"

section \<open>External collaborators: what a call can answer\<close>

text \<open>
  The result of \<open>await response.json()\<close> on an error response, as far as the page reads
  it: the promise rejects (no JSON, or JSON \<open>null\<close>, whose \<open>.detail\<close> throws inside the
  same \<open>try\<close>), or it yields an object whose \<open>detail\<close> is a string or absent.
\<close>

datatype json_detail = JsonRejected | JsonDetail "js_string option"

text \<open>
  How the body's reader ends: \<open>done\<close>, or \<open>reader.read()\<close> rejects with a message.
  A body is the finite sequence of chunks read before that; \<open>NoBody\<close> is a response whose
  \<open>body\<close> is \<open>null\<close>, so that \<open>response.body.getReader()\<close> throws a TypeError with the
  engine's message.  A stream that never ends keeps the handler suspended in its loop and
  is not an outcome of a completed call.
\<close>

datatype read_end = Done | ReadRejected js_string

datatype response_body = NoBody js_string | Body "byte list list" read_end

text \<open>\<open>await fetch(.../research, ...)\<close>: rejected with a message, or a response.\<close>

datatype research_fetch =
    FetchRejected js_string
  | Response nat json_detail response_body

definition response_ok :: "nat \<Rightarrow> bool" where
  "response_ok status = (200 \<le> status \<and> status \<le> 299)"

text \<open>The database's answer to the history query: \<open>{data, error}\<close>.\<close>

datatype history_response =
    HistoryData "conversation list option"
  | HistoryError js_string

text \<open>\<open>GET /conversation/{id}\<close>, up to the point where \<open>data\<close> is used.\<close>

datatype conversation_fetch =
    ConvFetchRejected js_string
  | ConvJsonRejected js_string
  | ConvNotOk "js_string option"
  | ConvOk "message list"

section \<open>\<open>page.js\<close>: the handlers of \<open>HomePage\<close>\<close>

definition startNewChat :: "app_state \<Rightarrow> app_state" where
  "startNewChat s =
     s\<lparr>messages := [], query := [], currentConversationId := IdNull, sidebarOpen := False\<rparr>"

text \<open>
  \<open>fetchHistory(userId)\<close>: the value returned (\<open>None\<close> for \<open>undefined\<close> and \<open>null\<close>), the
  state and the calls made.
\<close>

definition fetchHistory ::
  "js_string \<Rightarrow> history_response \<Rightarrow> app_state \<Rightarrow>
   conversation list option \<times> app_state \<times> effect list" where
  "fetchHistory userId answer s =
     (if userId = [] then (None, s, [])
      else
        let s1 = s\<lparr>isLoadingHistory := True\<rparr> in
        (case answer of
           HistoryData data \<Rightarrow>
             (data,
              s1\<lparr>history := (case data of Some rows \<Rightarrow> rows | None \<Rightarrow> []),
                 isLoadingHistory := False\<rparr>,
              [SelectHistory userId])
         | HistoryError msg \<Rightarrow>
             (Some [],
              s1\<lparr>history := [], isLoadingHistory := False\<rparr>,
              [SelectHistory userId, ConsoleError (lit ''Error fetching history:'') msg])))"

text \<open>\<open>a || b\<close> on an optional string against a default.\<close>

definition or_default :: "js_string option \<Rightarrow> js_string \<Rightarrow> js_string" where
  "or_default v dflt = (case v of Some x \<Rightarrow> (if x = [] then dflt else x) | None \<Rightarrow> dflt)"

definition loadConversation ::
  "js_id \<Rightarrow> conversation_fetch \<Rightarrow> app_state \<Rightarrow> app_state \<times> effect list" where
  "loadConversation conversationId answer s =
     (if \<not> truthy_id conversationId \<or> isLoadingConversation s then (s, [])
      else
        let s1 = s\<lparr>isLoadingConversation := True, messages := [], sidebarOpen := False,
                   currentConversationId := conversationId\<rparr>;
            (thrown, s2) =
              (case answer of
                 ConvFetchRejected msg \<Rightarrow> (Some msg, s1)
               | ConvJsonRejected msg \<Rightarrow> (Some msg, s1)
               | ConvNotOk detail \<Rightarrow>
                   (Some (or_default detail (lit ''Failed to load messages.'')), s1)
               | ConvOk data \<Rightarrow>
                   (None,
                    s1\<lparr>messages :=
                         map (\<lambda>msg. \<lparr>role = role msg, content = content msg\<rparr>) data\<rparr>));
            (s3, log) =
              (case thrown of
                 None \<Rightarrow> (s2, [])
               | Some msg \<Rightarrow>
                   (s2\<lparr>messages :=
                         [\<lparr>role = lit ''ai'',
                           content = lit ''Failed to load conversation: '' @ msg\<rparr>]\<rparr>,
                    [ConsoleError (lit ''Error loading conversation:'') msg]))
        in (s3\<lparr>isLoadingConversation := False\<rparr>, GetConversation conversationId # log))"

text \<open>
  \<open>handleDeleteConversation(conversationId)\<close>.  \<open>confirmed\<close> is the user's answer to
  \<open>window.confirm\<close>; \<open>messagesError\<close> and \<open>convError\<close> are the \<open>error\<close> fields of the two
  deletes (their \<open>message\<close>), \<open>None\<close> when the delete succeeded.
\<close>

definition handleDeleteConversation ::
  "js_id \<Rightarrow> bool \<Rightarrow> js_string option \<Rightarrow> js_string option \<Rightarrow> app_state \<Rightarrow>
   app_state \<times> effect list" where
  "handleDeleteConversation conversationId confirmed messagesError convError s =
     (case find (\<lambda>conv. id_conv conv = conversationId) (history s) of
        None \<Rightarrow> (s, [])
      | Some convToDelete \<Rightarrow>
          let ask = Confirm (lit ''Are you sure you want to delete the chat: \"''
                       @ query_text convToDelete @ lit ''\"?'');
              failed = (\<lambda>msg. [ConsoleError (lit ''Error deleting conversation:'') msg,
                                Alert (lit ''Failed to delete chat: '' @ msg)])
          in
          if \<not> confirmed then (s, [ask])
          else
            (case messagesError of
               Some msg \<Rightarrow> (s, [ask, DeleteMessages conversationId] @ failed msg)
             | None \<Rightarrow>
                 (case convError of
                    Some msg \<Rightarrow>
                      (s, [ask, DeleteMessages conversationId,
                           DeleteConversationRow conversationId] @ failed msg)
                  | None \<Rightarrow>
                      let s1 = s\<lparr>history :=
                                   filter (\<lambda>conv. id_conv conv \<noteq> conversationId) (history s)\<rparr>;
                          s2 = (if currentConversationId s = conversationId
                                then startNewChat s1 else s1)
                      in (s2, [ask, DeleteMessages conversationId,
                               DeleteConversationRow conversationId]))))"

subsection \<open>The streaming reducer of \<open>handleResearch\<close>\<close>

text \<open>The updater passed to \<open>setMessages\<close> on each chunk.\<close>

definition chunk_update :: "js_string \<Rightarrow> message list \<Rightarrow> message list" where
  "chunk_update aiResponseContent prev =
     (if length prev > 0 \<and> role (prev ! (length prev - 1)) = lit ''ai''
      then prev[length prev - 1 := \<lparr>role = lit ''ai'', content = aiResponseContent\<rparr>]
      else prev)"

text \<open>One pass of the \<open>while\<close> loop for a chunk that was read.\<close>

definition chunk_step ::
  "text_decoder \<times> js_string \<times> message list \<Rightarrow> byte list \<Rightarrow>
   text_decoder \<times> js_string \<times> message list" where
  "chunk_step st value =
     (case st of (dec, aiResponseContent, msgs) \<Rightarrow>
        let (dec', chunk) = decode dec value True;
            aiResponseContent' = aiResponseContent @ chunk
        in (dec', aiResponseContent', chunk_update aiResponseContent' msgs))"

text \<open>The loop over the chunks the reader delivers before it ends.\<close>

fun read_loop ::
  "text_decoder \<times> js_string \<times> message list \<Rightarrow> byte list list \<Rightarrow>
   text_decoder \<times> js_string \<times> message list" where
  "read_loop st [] = st"
| "read_loop st (value # rest) = read_loop (chunk_step st value) rest"

text \<open>The updater passed to \<open>setMessages\<close> in the \<open>catch\<close> block.\<close>

definition error_update :: "message \<Rightarrow> message list \<Rightarrow> message list" where
  "error_update errorMessage prev =
     (if length prev \<ge> 1 \<and> role (prev ! (length prev - 1)) = lit ''ai''
      then take (length prev - 1) prev @ [errorMessage]
      else prev @ [errorMessage])"

text \<open>
  The text thrown for a response that is not ok: \<open>errJson.detail || errorBody\<close> where
  reading the JSON succeeds, the status line otherwise.
\<close>

definition http_error_body :: "nat \<Rightarrow> json_detail \<Rightarrow> js_string" where
  "http_error_body status json =
     (let errorBody = lit ''HTTP error! status: '' @ decimal status
      in case json of
           JsonRejected \<Rightarrow> errorBody
         | JsonDetail detail \<Rightarrow> or_default detail errorBody)"

text \<open>
  The \<open>try\<close> block after the request was issued: the message of the exception thrown
  (\<open>None\<close> when the block runs to its end) and the message sequence at that point.
\<close>

definition research_try ::
  "research_fetch \<Rightarrow> message list \<Rightarrow> js_string option \<times> message list" where
  "research_try answer msgs =
     (case answer of
        FetchRejected msg \<Rightarrow> (Some msg, msgs)
      | Response status json body \<Rightarrow>
          if \<not> response_ok status then (Some (http_error_body status json), msgs)
          else
            (case body of
               NoBody msg \<Rightarrow> (Some msg, msgs)
             | Body chunks ending \<Rightarrow>
                 (case read_loop (new_TextDecoder, [], msgs) chunks of
                    (dec, aiResponseContent, msgs') \<Rightarrow>
                      (case ending of
                         Done \<Rightarrow> (None, msgs')
                       | ReadRejected msg \<Rightarrow> (Some msg, msgs')))))"

text \<open>
  The synchronous start of a send, up to the point where the request is issued: the busy
  flag is set, the user's message and the empty ai placeholder are appended, the input is
  cleared.  This is the state the page shows while the request is in flight.
\<close>

definition research_begin :: "app_state \<Rightarrow> app_state" where
  "research_begin s =
     (let s1 = s\<lparr>isLoading := True\<rparr>;
          userMessage = \<lparr>role = lit ''user'', content = query s\<rparr>;
          s2 = s1\<lparr>messages := messages s1 @ [userMessage]\<rparr>;
          s3 = s2\<lparr>query := []\<rparr>;
          aiMessagePlaceholder = \<lparr>role = lit ''ai'', content = []\<rparr>
      in s3\<lparr>messages := messages s3 @ [aiMessagePlaceholder]\<rparr>)"

text \<open>The message built in the \<open>catch\<close> block from \<open>error.message\<close>.\<close>

definition errorMessage :: "js_string \<Rightarrow> message" where
  "errorMessage msg =
     \<lparr>role = lit ''ai'',
      content = lit ''Error: '' @ msg @ [10, 10]
                  @ lit ''There was an issue connecting to the AI service.''\<rparr>"

text \<open>
  The rest of \<open>handleResearch\<close>, from the state in flight (the request has been issued)
  to completion: the \<open>try\<close> block after the \<open>await fetch\<close>, the \<open>catch\<close> block and the
  \<open>finally\<close> block.  \<open>sess\<close> and \<open>isNewChat\<close> are the values the handler captured
  before the request; the calls returned are those made after the request.
\<close>

definition research_settle ::
  "user_session \<Rightarrow> bool \<Rightarrow> research_fetch \<Rightarrow> history_response \<Rightarrow> app_state \<Rightarrow>
   app_state \<times> effect list" where
  "research_settle sess isNewChat answer historyAnswer s4 =
     (let (thrown, msgs5) = research_try answer (messages s4);
          s5 = s4\<lparr>messages := msgs5\<rparr>;
          (s6, log) =
            (case thrown of
               None \<Rightarrow> (s5, [])
             | Some msg \<Rightarrow>
                 (s5\<lparr>messages := error_update (errorMessage msg) (messages s5)\<rparr>,
                  [ConsoleError (lit ''Error fetching research:'') msg]));
          s7 = s6\<lparr>isLoading := False\<rparr>
      in
      if isNewChat then
        (case fetchHistory (user_id sess) historyAnswer s7 of
           (newHistory, s8, calls) \<Rightarrow>
             ((case newHistory of
                 Some (newest # older) \<Rightarrow> s8\<lparr>currentConversationId := id_conv newest\<rparr>
               | _ \<Rightarrow> s8),
              log @ calls))
      else (s7, log))"

text \<open>
  \<open>handleResearch()\<close> run to completion against the answers of the backend and of the
  database: the final state and the calls made, in order.
\<close>

definition handleResearch ::
  "app_state \<Rightarrow> research_fetch \<Rightarrow> history_response \<Rightarrow> app_state \<times> effect list" where
  "handleResearch s answer historyAnswer =
     (case session s of
        None \<Rightarrow> (s, [])
      | Some sess \<Rightarrow>
          if query s = [] \<or> isLoading s then (s, [])
          else
            let isNewChat = (\<not> truthy_id (currentConversationId s));
                s4 = research_begin s;
                request = PostResearch (query s) (user_id sess) (currentConversationId s);
                (s', calls) = research_settle sess isNewChat answer historyAnswer s4
            in (s', request # calls))"

section \<open>\<open>ChatInput.js\<close>: how a send is triggered\<close>

record key_event =
  key :: js_string
  shiftKey :: bool

text \<open>
  \<open>HomePage\<close> passes \<open>isLoading || isLoadingConversation\<close> as the input's \<open>isLoading\<close>.
  The third component tells whether \<open>preventDefault\<close> was called.
\<close>

definition input_isLoading :: "app_state \<Rightarrow> bool" where
  "input_isLoading s = (isLoading s \<or> isLoadingConversation s)"

definition handleKeyDown ::
  "key_event \<Rightarrow> app_state \<Rightarrow> research_fetch \<Rightarrow> history_response \<Rightarrow>
   (app_state \<times> effect list) \<times> bool" where
  "handleKeyDown e s answer historyAnswer =
     (if key e = lit ''Enter'' \<and> \<not> shiftKey e \<and> \<not> input_isLoading s \<and> query s \<noteq> []
      then (handleResearch s answer historyAnswer, True)
      else ((s, []), False))"

text \<open>The send button's \<open>disabled\<close> attribute; a disabled button dispatches no click.\<close>

definition send_disabled :: "app_state \<Rightarrow> bool" where
  "send_disabled s = (input_isLoading s \<or> query s = [])"

definition click_send ::
  "app_state \<Rightarrow> research_fetch \<Rightarrow> history_response \<Rightarrow> app_state \<times> effect list" where
  "click_send s answer historyAnswer =
     (if send_disabled s then (s, []) else handleResearch s answer historyAnswer)"

section \<open>Notions used to state the properties\<close>

text \<open>
  What a fresh \<open>TextDecoder\<close> returns for a byte sequence fed with \<open>{stream: true}\<close>.
\<close>

definition stream_text :: "byte list \<Rightarrow> js_string" where
  "stream_text bytes = snd (decode new_TextDecoder bytes True)"

text \<open>
  A byte sequence ends inside a multi-byte character when its last one, two or three
  bytes are the beginning of a UTF-8 sequence that announces more bytes than are there:
  a lead byte (which tells how many continuation bytes follow, and narrows the range of
  the first of them to exclude overlong forms, surrogates and values above U+10FFFF)
  followed by fewer continuation bytes than it needs.
\<close>

definition lead_needed :: "byte \<Rightarrow> nat" where
  "lead_needed b =
     (if 0xC2 \<le> b \<and> b \<le> 0xDF then 1
      else if 0xE0 \<le> b \<and> b \<le> 0xEF then 2
      else if 0xF0 \<le> b \<and> b \<le> 0xF4 then 3
      else 0)"

definition second_lower :: "byte \<Rightarrow> byte" where
  "second_lower b = (if b = 0xE0 then 0xA0 else if b = 0xF0 then 0x90 else 0x80)"

definition second_upper :: "byte \<Rightarrow> byte" where
  "second_upper b = (if b = 0xED then 0x9F else if b = 0xF4 then 0x8F else 0xBF)"

fun unfinished_sequence :: "byte list \<Rightarrow> bool" where
  "unfinished_sequence [b0] = (1 \<le> lead_needed b0)"
| "unfinished_sequence [b0, b1] =
     (2 \<le> lead_needed b0 \<and> second_lower b0 \<le> b1 \<and> b1 \<le> second_upper b0)"
| "unfinished_sequence [b0, b1, b2] =
     (3 \<le> lead_needed b0 \<and> second_lower b0 \<le> b1 \<and> b1 \<le> second_upper b0
      \<and> 0x80 \<le> b2 \<and> b2 \<le> 0xBF)"
| "unfinished_sequence _ = False"

definition last_bytes :: "nat \<Rightarrow> byte list \<Rightarrow> byte list" where
  "last_bytes n bytes = drop (length bytes - n) bytes"

definition ends_inside_character :: "byte list \<Rightarrow> bool" where
  "ends_inside_character bytes =
     (unfinished_sequence (last_bytes 1 bytes)
      \<or> unfinished_sequence (last_bytes 2 bytes)
      \<or> unfinished_sequence (last_bytes 3 bytes))"

text \<open>
  Two invariants of the decoder used in the proofs: between characters the decoder is in
  its initial state and inside a character its boundaries are continuation bytes; and
  the decoder holds back \<open>tail\<close>, an unfinished sequence.
\<close>

definition consistent :: "utf8_decoder \<Rightarrow> bool" where
  "consistent d = (if bytes_needed d = 0 then d = new_utf8_decoder
             else 0x80 \<le> lower_boundary d \<and> upper_boundary d \<le> 0xBF)"

definition held :: "utf8_decoder \<Rightarrow> byte list \<Rightarrow> bool" where
  "held d tail =
     (unfinished_sequence tail \<and> length tail = bytes_seen d + 1
      \<and> bytes_needed d = lead_needed (hd tail)
      \<and> lower_boundary d = (if bytes_seen d = 0 then second_lower (hd tail) else 0x80)
      \<and> upper_boundary d = (if bytes_seen d = 0 then second_upper (hd tail) else 0xBF))"

text \<open>No two neighbouring entries of the message sequence both have the role \<open>ai\<close>.\<close>

fun no_consecutive_ai :: "message list \<Rightarrow> bool" where
  "no_consecutive_ai (a # b # rest) =
     (\<not> (role a = lit ''ai'' \<and> role b = lit ''ai'') \<and> no_consecutive_ai (b # rest))"
| "no_consecutive_ai _ = True"

text \<open>
  A signed-in page with an unsaved new session and the query \<open>hello\<close> typed in, and the
  same page with conversation 42 open and one exchange on screen.
\<close>

definition new_session_state :: app_state where
  "new_session_state =
     \<lparr>session = Some \<lparr>user_id = lit ''u1''\<rparr>, messages = [], query = lit ''hello'',
      history = [], currentConversationId = IdNull, isLoading = False,
      isLoadingHistory = False, isLoadingConversation = False, sidebarOpen = False\<rparr>"

definition conversation_42 :: conversation where
  "conversation_42 = \<lparr>id_conv = IdNum 42, query_text = lit ''q'', created_at = lit ''2024''\<rparr>"

definition open_conversation_state :: app_state where
  "open_conversation_state =
     \<lparr>session = Some \<lparr>user_id = lit ''u1''\<rparr>,
      messages = [\<lparr>role = lit ''user'', content = lit ''q''\<rparr>,
                  \<lparr>role = lit ''ai'', content = lit ''a''\<rparr>],
      query = lit ''hello'', history = [conversation_42],
      currentConversationId = IdNum 42, isLoading = False,
      isLoadingHistory = False, isLoadingConversation = False, sidebarOpen = False\<rparr>"

section \<open>The decoder: streaming is a homomorphism\<close>

lemma utf8_run_append:
  "utf8_run d (xs @ ys) =
     (let (d1, out1) = utf8_run d xs; (d2, out2) = utf8_run d1 ys in (d2, out1 @ out2))"
  by (induction xs arbitrary: d) (simp_all add: split_beta Let_def)

lemma serialize_append:
  "serialize seen (xs @ ys) =
     (let (seen1, t1) = serialize seen xs; (seen2, t2) = serialize seen1 ys
      in (seen2, t1 @ t2))"
  by (cases xs; cases ys) (simp_all add: serialize_def)

lemma serialize_Nil: "serialize seen [] = (seen, [])"
  by (simp add: serialize_def)

lemma serialize_replacement: "serialize seen [0xFFFD] = (True, [0xFFFD])"
  by (simp add: serialize_def utf16_def)

lemma decode_stream:
  "decode td input True =
     (let td1 = (if \<not> do_not_flush td then new_TextDecoder else td);
          (d1, out1) = utf8_run (decoder td1) input;
          (seen, text) = serialize (bom_seen td1) out1
      in (\<lparr>decoder = d1, bom_seen = seen, do_not_flush = True\<rparr>, text))"
  by (simp add: decode_def)

lemma decode_stream_append:
  "decode td (xs @ ys) True =
     (let (td1, t1) = decode td xs True; (td2, t2) = decode td1 ys True in (td2, t1 @ t2))"
  by (simp add: decode_stream utf8_run_append serialize_append split_beta Let_def)

lemma decode_stream_Nil: "snd (decode td [] True) = []"
  by (simp add: decode_stream serialize_Nil)

lemma decode_flush_eq_stream:
  "snd (decode td bytes False) =
     snd (decode td bytes True) @
       (if bytes_needed (decoder (fst (decode td bytes True))) \<noteq> 0 then [0xFFFD] else [])"
proof -
  have "snd (decode td bytes False) =
        snd (serialize (bom_seen (if \<not> do_not_flush td then new_TextDecoder else td))
              (snd (utf8_run (decoder (if \<not> do_not_flush td then new_TextDecoder else td)) bytes)
               @ snd (utf8_end_of_queue
                   (fst (utf8_run (decoder (if \<not> do_not_flush td then new_TextDecoder else td)) bytes)))))"
    by (simp add: decode_def split_beta Let_def)
  then show ?thesis
    by (simp add: decode_stream utf8_end_of_queue_def serialize_append serialize_Nil
        serialize_replacement split_beta Let_def)
qed

subsection \<open>When the decoder holds bytes back\<close>

lemma lead_needed_cases:
  "lead_needed b = 0 \<or> lead_needed b = 1 \<or> lead_needed b = 2 \<or> lead_needed b = 3"
  by (simp add: lead_needed_def)

lemma lead_above: "1 \<le> lead_needed b \<Longrightarrow> 0xC2 \<le> b"
  by (auto simp: lead_needed_def word_le_nat_alt split: if_splits)

lemma handler_lead_new:
  "bytes_needed (fst (handler_lead new_utf8_decoder b)) = lead_needed b"
  "bytes_seen (fst (handler_lead new_utf8_decoder b)) = 0"
  "1 \<le> lead_needed b \<Longrightarrow> lower_boundary (fst (handler_lead new_utf8_decoder b)) = second_lower b"
  "1 \<le> lead_needed b \<Longrightarrow> upper_boundary (fst (handler_lead new_utf8_decoder b)) = second_upper b"
  "lead_needed b = 0 \<Longrightarrow> fst (handler_lead new_utf8_decoder b) = new_utf8_decoder"
  by (auto simp: handler_lead_def new_utf8_decoder_def lead_needed_def second_lower_def
      second_upper_def Let_def word_le_nat_alt)


lemma new_utf8_decoder_fields:
  "bytes_needed new_utf8_decoder = 0" "bytes_seen new_utf8_decoder = 0"
  "lower_boundary new_utf8_decoder = 0x80" "upper_boundary new_utf8_decoder = 0xBF"
  by (simp_all add: new_utf8_decoder_def)

lemma handler_on_lead:
  assumes "consistent d" "1 \<le> lead_needed b"
  shows "fst (utf8_handler d b) = fst (handler_lead new_utf8_decoder b)"
proof (cases "bytes_needed d = 0")
  case True
  with assms(1) show ?thesis by (simp add: consistent_def utf8_handler_def)
next
  case False
  with assms(1) have "upper_boundary d \<le> 0xBF" by (simp add: consistent_def)
  moreover have "0xC2 \<le> b" using assms(2) by (rule lead_above)
  ultimately have "\<not> b \<le> upper_boundary d"
    by (simp add: word_le_nat_alt)
  with False show ?thesis by (simp add: utf8_handler_def split_beta)
qed

lemma handler_continue:
  assumes "bytes_needed d \<noteq> 0" "lower_boundary d \<le> b" "b \<le> upper_boundary d"
    "bytes_seen d + 1 \<noteq> bytes_needed d"
  shows "bytes_needed (fst (utf8_handler d b)) = bytes_needed d"
    "bytes_seen (fst (utf8_handler d b)) = bytes_seen d + 1"
    "lower_boundary (fst (utf8_handler d b)) = 0x80"
    "upper_boundary (fst (utf8_handler d b)) = 0xBF"
  using assms by (simp_all add: utf8_handler_def Let_def)

lemma handler_complete:
  assumes "bytes_needed d \<noteq> 0" "lower_boundary d \<le> b" "b \<le> upper_boundary d"
    "bytes_seen d + 1 = bytes_needed d"
  shows "fst (utf8_handler d b) = new_utf8_decoder"
  using assms by (cases d) (simp add: utf8_handler_def new_utf8_decoder_def Let_def)

lemma handler_reject:
  assumes "bytes_needed d \<noteq> 0" "\<not> (lower_boundary d \<le> b \<and> b \<le> upper_boundary d)"
  shows "fst (utf8_handler d b) = fst (handler_lead new_utf8_decoder b)"
  using assms by (simp add: utf8_handler_def split_beta)

lemma handler_rest:
  assumes "consistent d" "bytes_needed d = 0"
  shows "fst (utf8_handler d b) = fst (handler_lead new_utf8_decoder b)"
  using assms by (simp add: utf8_handler_def consistent_def)

lemma consistent_new: "consistent new_utf8_decoder"
  by (simp add: consistent_def new_utf8_decoder_fields)

lemma consistent_after_lead: "consistent (fst (handler_lead new_utf8_decoder b))"
proof (cases "1 \<le> lead_needed b")
  case True
  then show ?thesis
    by (auto simp: consistent_def handler_lead_new second_lower_def second_upper_def)
next
  case False
  then show ?thesis by (simp add: handler_lead_new consistent_new)
qed

lemma handler_consistent:
  assumes "consistent d"
  shows "consistent (fst (utf8_handler d b))"
proof (cases "bytes_needed d = 0")
  case True
  show ?thesis unfolding handler_rest [OF assms True] by (rule consistent_after_lead)
next
  case needed: False
  show ?thesis
  proof (cases "lower_boundary d \<le> b \<and> b \<le> upper_boundary d")
    case False
    show ?thesis unfolding handler_reject [OF needed False] by (rule consistent_after_lead)
  next
    case True
    then have r: "lower_boundary d \<le> b" "b \<le> upper_boundary d" by simp_all
    show ?thesis
    proof (cases "bytes_seen d + 1 = bytes_needed d")
      case True
      show ?thesis unfolding handler_complete [OF needed r True] by (rule consistent_new)
    next
      case False
      show ?thesis
        using needed by (simp add: consistent_def handler_continue [OF needed r False])
    qed
  qed
qed

lemma handler_not_lead:
  assumes "consistent d" "lead_needed b = 0" "bytes_needed (fst (utf8_handler d b)) \<noteq> 0"
  shows "bytes_needed d \<noteq> 0 \<and> lower_boundary d \<le> b \<and> b \<le> upper_boundary d
       \<and> bytes_seen d + 1 \<noteq> bytes_needed d"
proof -
  have rest: "bytes_needed (fst (handler_lead new_utf8_decoder b)) = 0"
    using assms(2) by (simp add: handler_lead_new(1))
  have n: "bytes_needed d \<noteq> 0"
  proof
    assume "bytes_needed d = 0"
    from handler_rest [OF assms(1) this, of b] rest assms(3) show False by simp
  qed
  have r: "lower_boundary d \<le> b \<and> b \<le> upper_boundary d"
  proof (rule ccontr)
    assume "\<not> (lower_boundary d \<le> b \<and> b \<le> upper_boundary d)"
    from handler_reject [OF n this] rest assms(3) show False by simp
  qed
  have "bytes_seen d + 1 \<noteq> bytes_needed d"
  proof
    assume "bytes_seen d + 1 = bytes_needed d"
    from handler_complete [OF n _ _ this, of b] r assms(3) show False
      by (simp add: new_utf8_decoder_fields)
  qed
  with n r show ?thesis by simp
qed

lemma run_consistent: "consistent d \<Longrightarrow> consistent (fst (utf8_run d bytes))"
  by (induction bytes arbitrary: d) (simp_all add: split_beta handler_consistent)



lemma run_snoc:
  "fst (utf8_run d (xs @ [b])) = fst (utf8_handler (fst (utf8_run d xs)) b)"
  by (simp add: utf8_run_append split_beta)


lemma run_single: "fst (utf8_run d [b]) = fst (utf8_handler d b)"
  by (simp add: split_beta)

lemma run_Cons: "fst (utf8_run d (b # bs)) = fst (utf8_run (fst (utf8_handler d b)) bs)"
  by (simp add: split_beta)

lemma unfinished_cases:
  assumes "unfinished_sequence tail"
  obtains b0 where "tail = [b0]"
    | b0 b1 where "tail = [b0, b1]"
    | b0 b1 b2 where "tail = [b0, b1, b2]"
  using assms by (cases tail rule: unfinished_sequence.cases) auto

lemma unfinished_pending:
  assumes "consistent d" "unfinished_sequence tail"
  shows "bytes_needed (fst (utf8_run d tail)) \<noteq> 0"
  using assms(2)
proof (cases rule: unfinished_cases)
  case (1 b0)
  with assms show ?thesis
    by (simp add: split_beta handler_on_lead handler_lead_new)
next
  case (2 b0 b1)
  let ?first = "fst (handler_lead new_utf8_decoder b0)"
  from 2 assms(2) have l: "2 \<le> lead_needed b0" "second_lower b0 \<le> b1" "b1 \<le> second_upper b0"
    by simp_all
  then have l1: "1 \<le> lead_needed b0" by simp
  have "bytes_needed (fst (utf8_handler ?first b1)) = bytes_needed ?first"
    using l by (intro handler_continue) (simp_all add: handler_lead_new l1)
  moreover have "fst (utf8_run d [b0, b1]) = fst (utf8_handler (fst (utf8_handler d b0)) b1)"
    by (simp add: split_beta)
  ultimately show ?thesis
    using l 2 by (simp add: handler_on_lead [OF assms(1) l1] handler_lead_new)
next
  case (3 b0 b1 b2)
  let ?first = "fst (handler_lead new_utf8_decoder b0)"
  let ?second = "fst (utf8_handler ?first b1)"
  from 3 assms(2) have l: "3 \<le> lead_needed b0" "second_lower b0 \<le> b1" "b1 \<le> second_upper b0"
    "0x80 \<le> b2" "b2 \<le> 0xBF"
    by simp_all
  then have l1: "1 \<le> lead_needed b0" by simp
  have c1: "bytes_needed ?first \<noteq> 0" "lower_boundary ?first \<le> b1" "b1 \<le> upper_boundary ?first"
    "bytes_seen ?first + 1 \<noteq> bytes_needed ?first"
    using l by (simp_all add: handler_lead_new l1)
  note d2 = handler_continue [OF c1]
  have c2: "bytes_needed ?second \<noteq> 0" "lower_boundary ?second \<le> b2" "b2 \<le> upper_boundary ?second"
    "bytes_seen ?second + 1 \<noteq> bytes_needed ?second"
    using l by (simp_all add: d2 handler_lead_new l1)
  have "bytes_needed (fst (utf8_handler ?second b2)) = bytes_needed ?second"
    by (rule handler_continue [OF c2])
  moreover have "fst (utf8_run d [b0, b1, b2])
      = fst (utf8_handler (fst (utf8_handler (fst (utf8_handler d b0)) b1)) b2)"
    by (simp add: split_beta)
  ultimately show ?thesis
    using c2(1) 3 by (simp add: handler_on_lead [OF assms(1) l1])
qed

lemma held_extend:
  assumes "held d t" "lower_boundary d \<le> b" "b \<le> upper_boundary d"
    "bytes_seen d + 1 \<noteq> bytes_needed d" "bytes_needed d \<noteq> 0"
  shows "held (fst (utf8_handler d b)) (t @ [b])"
proof -
  note c = handler_continue [OF assms(5) assms(2) assms(3) assms(4)]
  from assms(1) have u: "unfinished_sequence t" by (simp add: held_def)
  from u show ?thesis
  proof (cases rule: unfinished_cases)
    case (1 b0)
    with assms lead_needed_cases [of b0] show ?thesis
      by (auto simp: held_def c)
  next
    case (2 b0 b1)
    with assms lead_needed_cases [of b0] show ?thesis
      by (auto simp: held_def c)
  next
    case (3 b0 b1 b2)
    with assms lead_needed_cases [of b0] show ?thesis
      by (auto simp: held_def c)
  qed
qed

lemma pending_unfinished:
  "bytes_needed (fst (utf8_run new_utf8_decoder bytes)) \<noteq> 0 \<Longrightarrow>
   \<exists>pre tail. bytes = pre @ tail \<and> held (fst (utf8_run new_utf8_decoder bytes)) tail"
proof (induction bytes rule: rev_induct)
  case Nil
  then show ?case by (simp add: new_utf8_decoder_fields)
next
  case (snoc b xs)
  let ?before = "fst (utf8_run new_utf8_decoder xs)"
  let ?after = "fst (utf8_handler ?before b)"
  have d: "fst (utf8_run new_utf8_decoder (xs @ [b])) = ?after" by (rule run_snoc)
  have g: "consistent ?before" by (rule run_consistent [OF consistent_new])
  show ?case
  proof (cases "1 \<le> lead_needed b")
    case True
    have "held ?after [b]"
      using True by (simp add: held_def handler_on_lead [OF g True] handler_lead_new)
    then show ?thesis unfolding d by blast
  next
    case False
    then have nl: "lead_needed b = 0" by simp
    from snoc.prems have p: "bytes_needed ?after \<noteq> 0" unfolding d .
    from handler_not_lead [OF g nl p]
    have c: "bytes_needed ?before \<noteq> 0" "lower_boundary ?before \<le> b" "b \<le> upper_boundary ?before"
      "bytes_seen ?before + 1 \<noteq> bytes_needed ?before"
      by simp_all
    from snoc.IH [OF c(1)] obtain pre t where t: "xs = pre @ t" "held ?before t" by blast
    have "held ?after (t @ [b])" by (rule held_extend [OF t(2) c(2) c(3) c(4) c(1)])
    with t(1) show ?thesis unfolding d by auto
  qed
qed

lemma last_bytes_suffix: "length tail = n \<Longrightarrow> last_bytes n (pre @ tail) = tail"
  by (simp add: last_bytes_def)

lemma unfinished_length:
  "unfinished_sequence tail \<Longrightarrow> length tail = 1 \<or> length tail = 2 \<or> length tail = 3"
  by (cases tail rule: unfinished_sequence.cases) simp_all

lemma ends_inside_character_iff:
  "ends_inside_character bytes = (\<exists>pre tail. bytes = pre @ tail \<and> unfinished_sequence tail)"
proof
  assume "ends_inside_character bytes"
  then obtain n where "unfinished_sequence (last_bytes n bytes)"
    unfolding ends_inside_character_def by blast
  moreover have "bytes = take (length bytes - n) bytes @ last_bytes n bytes"
    by (simp add: last_bytes_def)
  ultimately show "\<exists>pre tail. bytes = pre @ tail \<and> unfinished_sequence tail" by blast
next
  assume "\<exists>pre tail. bytes = pre @ tail \<and> unfinished_sequence tail"
  then obtain pre tail where t: "bytes = pre @ tail" "unfinished_sequence tail" by blast
  from unfinished_length [OF t(2)] t show "ends_inside_character bytes"
    unfolding ends_inside_character_def
    by (auto simp: last_bytes_suffix)
qed

lemma decoder_pending_iff:
  "(bytes_needed (decoder (fst (decode new_TextDecoder bytes True))) \<noteq> 0)
     = ends_inside_character bytes"
proof -
  have d: "decoder (fst (decode new_TextDecoder bytes True)) = fst (utf8_run new_utf8_decoder bytes)"
    by (simp add: decode_stream new_TextDecoder_def split_beta)
  show ?thesis
    unfolding d ends_inside_character_iff
  proof
    assume "bytes_needed (fst (utf8_run new_utf8_decoder bytes)) \<noteq> 0"
    from pending_unfinished [OF this]
    show "\<exists>pre tail. bytes = pre @ tail \<and> unfinished_sequence tail"
      by (auto simp: held_def)
  next
    assume "\<exists>pre tail. bytes = pre @ tail \<and> unfinished_sequence tail"
    then obtain pre tail where t: "bytes = pre @ tail" "unfinished_sequence tail" by blast
    have "consistent (fst (utf8_run new_utf8_decoder pre))"
      by (rule run_consistent [OF consistent_new])
    from unfinished_pending [OF this t(2)]
    show "bytes_needed (fst (utf8_run new_utf8_decoder bytes)) \<noteq> 0"
      by (simp add: t(1) utf8_run_append split_beta)
  qed
qed

section \<open>The reducer and the handler, step by step\<close>

lemma chunk_update_snoc_ai:
  "role p = lit ''ai'' \<Longrightarrow>
   chunk_update acc (ms @ [p]) = ms @ [\<lparr>role = lit ''ai'', content = acc\<rparr>]"
  by (simp add: chunk_update_def)

lemma chunk_update_not_ai:
  "ms = [] \<or> role (last ms) \<noteq> lit ''ai'' \<Longrightarrow> chunk_update acc ms = ms"
  by (auto simp: chunk_update_def last_conv_nth)

lemma error_update_snoc_ai:
  "role p = lit ''ai'' \<Longrightarrow> error_update e (ms @ [p]) = ms @ [e]"
  by (simp add: error_update_def)

lemma read_loop_acc:
  "fst (snd (read_loop (dec, acc, ms) chunks)) = acc @ snd (decode dec (concat chunks) True)"
proof (induction chunks arbitrary: dec acc ms)
  case Nil
  show ?case by (simp add: decode_stream_Nil)
next
  case (Cons c cs)
  show ?case
    by (simp add: chunk_step_def Cons.IH decode_stream_append split_beta Let_def)
qed

lemma read_loop_msgs_snoc:
  "role p = lit ''ai'' \<Longrightarrow>
   snd (snd (read_loop (dec, acc, ms @ [p]) chunks)) =
     ms @ [if chunks = [] then p
           else \<lparr>role = lit ''ai'', content = acc @ snd (decode dec (concat chunks) True)\<rparr>]"
proof (induction chunks arbitrary: dec acc p)
  case Nil
  show ?case by simp
next
  case (Cons c cs)
  show ?case
    by (simp add: chunk_step_def chunk_update_snoc_ai Cons.prems Cons.IH decode_stream_append
        decode_stream_Nil split_beta Let_def)
qed


lemma research_begin_messages:
  "messages (research_begin s) =
     messages s @ [\<lparr>role = lit ''user'', content = query s\<rparr>, \<lparr>role = lit ''ai'', content = []\<rparr>]"
  by (simp add: research_begin_def Let_def)

lemma research_begin_fields:
  "isLoading (research_begin s)"
  "query (research_begin s) = []"
  "session (research_begin s) = session s"
  "history (research_begin s) = history s"
  "currentConversationId (research_begin s) = currentConversationId s"
  "isLoadingHistory (research_begin s) = isLoadingHistory s"
  "isLoadingConversation (research_begin s) = isLoadingConversation s"
  "sidebarOpen (research_begin s) = sidebarOpen s"
  by (simp_all add: research_begin_def Let_def)

lemma research_try_thrown_snoc:
  assumes "role p = lit ''ai''"
  shows "research_try a (ms @ [p]) =
     (case a of
        FetchRejected msg \<Rightarrow> (Some msg, ms @ [p])
      | Response status json body \<Rightarrow>
          if \<not> response_ok status then (Some (http_error_body status json), ms @ [p])
          else (case body of
                  NoBody msg \<Rightarrow> (Some msg, ms @ [p])
                | Body chunks ending \<Rightarrow>
                    ((case ending of Done \<Rightarrow> None | ReadRejected msg \<Rightarrow> Some msg),
                     ms @ [if chunks = [] then p
                           else \<lparr>role = lit ''ai'',
                                 content = snd (decode new_TextDecoder (concat chunks) True)\<rparr>])))"
  unfolding research_try_def
  by (simp split: research_fetch.split response_body.split read_end.split
      add: split_beta read_loop_msgs_snoc [OF assms])


lemma fetchHistory_frame:
  "messages (fst (snd (fetchHistory u h s))) = messages s"
  "isLoading (fst (snd (fetchHistory u h s))) = isLoading s"
  "query (fst (snd (fetchHistory u h s))) = query s"
  "session (fst (snd (fetchHistory u h s))) = session s"
  "currentConversationId (fst (snd (fetchHistory u h s))) = currentConversationId s"
  by (simp_all add: fetchHistory_def Let_def split: history_response.split)

lemma fetchHistory_calls:
  "snd (snd (fetchHistory u h s)) =
     (if u = [] then []
      else case h of
             HistoryData data \<Rightarrow> [SelectHistory u]
           | HistoryError msg \<Rightarrow>
               [SelectHistory u, ConsoleError (lit ''Error fetching history:'') msg])"
  by (simp add: fetchHistory_def Let_def split: history_response.split)

lemma handleResearch_rejected:
  "session s = None \<or> query s = [] \<or> isLoading s \<Longrightarrow> handleResearch s a h = (s, [])"
  by (auto simp: handleResearch_def split: option.split)

lemma handleResearch_messages:
  assumes "session s = Some sess" "query s \<noteq> []" "\<not> isLoading s"
  shows "messages (fst (handleResearch s a h)) =
     (case research_try a (messages (research_begin s)) of
        (None, msgs) \<Rightarrow> msgs
      | (Some msg, msgs) \<Rightarrow> error_update (errorMessage msg) msgs)"
  using assms
  by (simp add: handleResearch_def research_settle_def Let_def split_beta fetchHistory_frame
      split: option.split list.split)

lemma research_settle_isLoading:
  "\<not> isLoading (fst (research_settle sess isNewChat a h inFlight))"
  by (simp add: research_settle_def Let_def split_beta fetchHistory_frame
      split: option.split list.split)

lemma handleResearch_begin_settle:
  assumes "session s = Some sess" "query s \<noteq> []" "\<not> isLoading s"
  shows "handleResearch s a h =
     (fst (research_settle sess (\<not> truthy_id (currentConversationId s)) a h (research_begin s)),
      PostResearch (query s) (user_id sess) (currentConversationId s)
        # snd (research_settle sess (\<not> truthy_id (currentConversationId s)) a h
                 (research_begin s)))"
  using assms by (simp add: handleResearch_def Let_def split_beta)

lemma handleResearch_isLoading:
  assumes "session s = Some sess" "query s \<noteq> []" "\<not> isLoading s"
  shows "\<not> isLoading (fst (handleResearch s a h))"
  using assms
  by (simp add: handleResearch_def research_settle_def Let_def split_beta fetchHistory_frame
      split: option.split list.split)

lemma handleResearch_calls:
  assumes "session s = Some sess" "query s \<noteq> []" "\<not> isLoading s"
  shows "snd (handleResearch s a h) =
     PostResearch (query s) (user_id sess) (currentConversationId s)
     # (case fst (research_try a (messages (research_begin s))) of
          None \<Rightarrow> []
        | Some msg \<Rightarrow> [ConsoleError (lit ''Error fetching research:'') msg])
     @ (if truthy_id (currentConversationId s) then []
        else snd (snd (fetchHistory (user_id sess) h s)))"
  using assms
  by (simp add: handleResearch_def research_settle_def Let_def split_beta fetchHistory_calls
      split: option.split list.split)

lemma error_update_snoc2_ai:
  "role p = lit ''ai'' \<Longrightarrow> error_update e (ms @ [u, p]) = ms @ [u, e]"
  using error_update_snoc_ai [of p e "ms @ [u]"] by simp

lemma handleResearch_messages_cases:
  assumes "session s = Some sess" "query s \<noteq> []" "\<not> isLoading s"
  shows "messages (fst (handleResearch s a h)) =
     messages s @
     [\<lparr>role = lit ''user'', content = query s\<rparr>,
      (case a of
         FetchRejected msg \<Rightarrow> errorMessage msg
       | Response status json body \<Rightarrow>
           if \<not> response_ok status then errorMessage (http_error_body status json)
           else (case body of
                   NoBody msg \<Rightarrow> errorMessage msg
                 | Body chunks ending \<Rightarrow>
                     (case ending of
                        Done \<Rightarrow> \<lparr>role = lit ''ai'', content = stream_text (concat chunks)\<rparr>
                      | ReadRejected msg \<Rightarrow> errorMessage msg)))]"
proof -
  let ?u = "\<lparr>role = lit ''user'', content = query s\<rparr>"
  let ?p = "\<lparr>role = lit ''ai'', content = []\<rparr>"
  have start: "messages (research_begin s) = (messages s @ [?u]) @ [?p]"
    by (simp add: research_begin_messages)
  have p: "role ?p = lit ''ai''" by simp
  show ?thesis
    unfolding handleResearch_messages [OF assms] start research_try_thrown_snoc [OF p]
    by (simp add: error_update_snoc2_ai stream_text_def decode_stream_Nil
        split: research_fetch.split response_body.split read_end.split)
qed

lemma no_consecutive_ai_snoc2:
  "no_consecutive_ai xs \<Longrightarrow> role u \<noteq> lit ''ai'' \<Longrightarrow> no_consecutive_ai (xs @ [u, x])"
  by (induction xs rule: no_consecutive_ai.induct) auto

lemma find_id_in_history:
  "cid \<in> id_conv ` set hist \<Longrightarrow> \<exists>conv. find (\<lambda>conv. id_conv conv = cid) hist = Some conv"
  by (cases "find (\<lambda>conv. id_conv conv = cid) hist") (auto simp: find_None_iff)

lemma handleResearch_resync:
  assumes "session s = Some sess" "query s \<noteq> []" "\<not> isLoading s"
  shows "(SelectHistory (user_id sess) \<in> set (snd (handleResearch s a h)))
       = (\<not> truthy_id (currentConversationId s) \<and> user_id sess \<noteq> [])"
  unfolding handleResearch_calls [OF assms]
  by (auto simp: fetchHistory_calls split: option.split history_response.split)

lemma utf8_decode_stream_text:
  "utf8_decode bytes =
     stream_text bytes @ (if ends_inside_character bytes then [0xFFFD] else [])"
  unfolding utf8_decode_def stream_text_def decoder_pending_iff [symmetric]
  by (rule decode_flush_eq_stream)

lemma handleResearch_history:
  assumes "session s = Some sess" "query s \<noteq> []" "\<not> isLoading s"
    and "\<not> truthy_id (currentConversationId s)" "user_id sess \<noteq> []"
  shows "history (fst (handleResearch s a (HistoryData (Some rows)))) = rows"
    and "currentConversationId (fst (handleResearch s a (HistoryData (Some rows))))
           = (case rows of [] \<Rightarrow> currentConversationId s | newest # older \<Rightarrow> id_conv newest)"
  using assms
  by (simp_all add: handleResearch_def research_settle_def Let_def split_beta fetchHistory_def research_begin_fields
      split: option.split list.split)

section \<open>Sending: the guard and the busy flag\<close>

text \<open>
  Claim C8.  In every state in which the query is empty, or no session exists, or a send
  is already in flight, invoking send is a no-op: \<open>handleResearch\<close> returns the state as it
  was (so the message sequence is unchanged and no placeholder is appended) and issues no
  call at all.  The same holds when the send is triggered through the input's Enter key
  or through the send button.
\<close>

theorem send_rejected_is_noop:
  assumes "session s = None \<or> query s = [] \<or> isLoading s"
  shows "handleResearch s answer historyAnswer = (s, [])
       \<and> fst (handleKeyDown e s answer historyAnswer) = (s, [])
       \<and> click_send s answer historyAnswer = (s, [])"
  using assms handleResearch_rejected [OF assms]
  by (simp add: handleKeyDown_def click_send_def)

theorem send_rejected_is_noop_witness:
  "query (new_session_state\<lparr>query := []\<rparr>) = []
   \<and> handleResearch (new_session_state\<lparr>query := []\<rparr>)
        (Response 200 JsonRejected (Body [[0x48, 0x69]] Done)) (HistoryData (Some [conversation_42]))
       = (new_session_state\<lparr>query := []\<rparr>, [])
   \<and> fst (handleKeyDown \<lparr>key = lit ''Enter'', shiftKey = False\<rparr> (new_session_state\<lparr>query := []\<rparr>)
        (Response 200 JsonRejected (Body [[0x48, 0x69]] Done)) (HistoryData (Some [conversation_42])))
       = (new_session_state\<lparr>query := []\<rparr>, [])"
  using send_rejected_is_noop [of "new_session_state\<lparr>query := []\<rparr>"
      "Response 200 JsonRejected (Body [[0x48, 0x69]] Done)" "HistoryData (Some [conversation_42])"
      "\<lparr>key = lit ''Enter'', shiftKey = False\<rparr>"]
  by simp

text \<open>
  Claim C5.  A send that starts (a session exists, the query is not empty, no send is in
  flight) raises the busy flag and issues the request: \<open>handleResearch\<close> is the
  continuation \<open>research_settle\<close> run from the in-flight state \<open>research_begin s\<close>, in
  which the flag is true.  From every in-flight state, whatever the backend and the
  database answer (a stream read to its end, a response that is not ok, a rejected fetch,
  a missing body, a read that fails in mid-stream), the continuation ends with the flag
  false; so the flag is false when \<open>handleResearch\<close> completes.
\<close>

theorem busy_flag_cleared:
  assumes "session s = Some sess" "query s \<noteq> []" "\<not> isLoading s"
  shows "isLoading (research_begin s)
       \<and> handleResearch s answer historyAnswer =
           (fst (research_settle sess (\<not> truthy_id (currentConversationId s)) answer
                   historyAnswer (research_begin s)),
            PostResearch (query s) (user_id sess) (currentConversationId s)
              # snd (research_settle sess (\<not> truthy_id (currentConversationId s)) answer
                       historyAnswer (research_begin s)))
       \<and> \<not> isLoading (fst (research_settle sess' isNewChat answer historyAnswer inFlight))
       \<and> \<not> isLoading (fst (handleResearch s answer historyAnswer))"
proof -
  have raised: "isLoading (research_begin s)"
    by (simp add: research_begin_fields)
  have run: "handleResearch s answer historyAnswer =
           (fst (research_settle sess (\<not> truthy_id (currentConversationId s)) answer
                   historyAnswer (research_begin s)),
            PostResearch (query s) (user_id sess) (currentConversationId s)
              # snd (research_settle sess (\<not> truthy_id (currentConversationId s)) answer
                       historyAnswer (research_begin s)))"
    by (rule handleResearch_begin_settle [OF assms])
  have cleared: "\<not> isLoading (fst (research_settle sess' isNewChat answer historyAnswer inFlight))"
    by (rule research_settle_isLoading)
  have final: "\<not> isLoading (fst (handleResearch s answer historyAnswer))"
    unfolding run by (simp add: research_settle_isLoading)
  from raised run cleared final show ?thesis by (intro conjI)
qed

theorem busy_flag_cleared_witness:
  "session new_session_state = Some \<lparr>user_id = lit ''u1''\<rparr>
   \<and> query new_session_state \<noteq> [] \<and> \<not> isLoading new_session_state
   \<and> isLoading (research_begin new_session_state)
   \<and> \<not> isLoading (fst (research_settle \<lparr>user_id = lit ''u1''\<rparr> True
          (Response 200 JsonRejected (Body [[0x48, 0x69]] (ReadRejected (lit ''network error''))))
          (HistoryError (lit ''timeout'')) (research_begin new_session_state)))
   \<and> snd (handleResearch new_session_state
          (Response 200 JsonRejected (Body [[0x48, 0x69]] (ReadRejected (lit ''network error''))))
          (HistoryError (lit ''timeout'')))
       = PostResearch (lit ''hello'') (lit ''u1'') IdNull
         # snd (research_settle \<lparr>user_id = lit ''u1''\<rparr> True
                 (Response 200 JsonRejected
                    (Body [[0x48, 0x69]] (ReadRejected (lit ''network error''))))
                 (HistoryError (lit ''timeout'')) (research_begin new_session_state))
   \<and> \<not> isLoading (fst (handleResearch new_session_state
          (Response 200 JsonRejected (Body [[0x48, 0x69]] (ReadRejected (lit ''network error''))))
          (HistoryError (lit ''timeout''))))"
proof -
  have g: "session new_session_state = Some \<lparr>user_id = lit ''u1''\<rparr>"
    "query new_session_state \<noteq> []" "\<not> isLoading new_session_state"
    by (simp_all add: new_session_state_def lit_def)
  have f: "query new_session_state = lit ''hello''"
    "currentConversationId new_session_state = IdNull"
    by (simp_all add: new_session_state_def)
  show ?thesis
    using busy_flag_cleared [OF g,
        of "Response 200 JsonRejected (Body [[0x48, 0x69]] (ReadRejected (lit ''network error'')))"
          "HistoryError (lit ''timeout'')" "\<lparr>user_id = lit ''u1''\<rparr>" True
          "research_begin new_session_state"] g
    by (simp add: f)
qed

section \<open>The streaming reducer\<close>

text \<open>
  Claim C9.  One chunk arrival changes at most the last entry of the message sequence:
  the length is unchanged, every entry but the last is unchanged, and when the sequence
  is empty or its last entry does not have the role \<open>ai\<close> the whole sequence is left as
  it was (the update is skipped, nothing is appended).
\<close>

theorem chunk_step_frame:
  "length (snd (snd (chunk_step (dec, acc, msgs) value))) = length msgs
   \<and> butlast (snd (snd (chunk_step (dec, acc, msgs) value))) = butlast msgs
   \<and> (msgs = [] \<or> role (last msgs) \<noteq> lit ''ai''
        \<longrightarrow> snd (snd (chunk_step (dec, acc, msgs) value)) = msgs)"
  by (auto simp: chunk_step_def chunk_update_def split_beta Let_def butlast_list_update last_conv_nth)

theorem chunk_step_frame_witness:
  "role (last [\<lparr>role = lit ''ai'', content = lit ''a''\<rparr>, \<lparr>role = lit ''user'', content = lit ''q''\<rparr>]) \<noteq> lit ''ai''
   \<and> snd (snd (chunk_step (new_TextDecoder, [],
         [\<lparr>role = lit ''ai'', content = lit ''a''\<rparr>, \<lparr>role = lit ''user'', content = lit ''q''\<rparr>]) [0x48, 0x69]))
      = [\<lparr>role = lit ''ai'', content = lit ''a''\<rparr>, \<lparr>role = lit ''user'', content = lit ''q''\<rparr>]"
  using chunk_step_frame [of new_TextDecoder "[]"
      "[\<lparr>role = lit ''ai'', content = lit ''a''\<rparr>, \<lparr>role = lit ''user'', content = lit ''q''\<rparr>]" "[0x48, 0x69]"]
  by (simp add: lit_def)

section \<open>The message sequence after a send\<close>

text \<open>
  Claim C2.  If the message sequence has no two consecutive \<open>ai\<close> entries before
  \<open>handleResearch\<close> is invoked, it has none when the call completes, for every answer
  of the backend (a stream read to its end, a rejected fetch, a response that is not ok,
  a missing body, a read that fails in mid-stream) and of the database, and also when the
  guard rejects the call.
\<close>

theorem send_keeps_no_consecutive_ai:
  assumes "no_consecutive_ai (messages s)"
  shows "no_consecutive_ai (messages (fst (handleResearch s answer historyAnswer)))"
proof (cases "session s = None \<or> query s = [] \<or> isLoading s")
  case True
  then show ?thesis using assms by (simp add: handleResearch_rejected)
next
  case False
  then obtain sess where g: "session s = Some sess" "query s \<noteq> []" "\<not> isLoading s"
    by auto
  have "role \<lparr>role = lit ''user'', content = query s\<rparr> \<noteq> lit ''ai''"
    by (simp add: lit_def)
  then show ?thesis
    unfolding handleResearch_messages_cases [OF g]
    by (rule no_consecutive_ai_snoc2 [OF assms])
qed

theorem send_keeps_no_consecutive_ai_witness:
  "no_consecutive_ai (messages open_conversation_state)
   \<and> no_consecutive_ai (messages (fst (handleResearch open_conversation_state
        (Response 503 JsonRejected (NoBody [])) (HistoryData None))))"
  using send_keeps_no_consecutive_ai [of open_conversation_state
      "Response 503 JsonRejected (NoBody [])" "HistoryData None"]
  by (simp add: open_conversation_state_def lit_def)

section \<open>Deleting and loading conversations\<close>

text \<open>
  Claim C3.  For a conversation id that is in the local history, when the user confirms,
  the delete of the message rows succeeds and the delete of the conversation row fails,
  \<open>handleDeleteConversation\<close> leaves the state as it was (in particular the history list
  still holds the entry) and reports the failure to the user through \<open>alert\<close>.
\<close>

theorem delete_partial_failure:
  assumes "conversationId \<in> id_conv ` set (history s)"
  shows "fst (handleDeleteConversation conversationId True None (Some msg) s) = s
       \<and> history (fst (handleDeleteConversation conversationId True None (Some msg) s)) = history s
       \<and> Alert (lit ''Failed to delete chat: '' @ msg)
            \<in> set (snd (handleDeleteConversation conversationId True None (Some msg) s))"
proof -
  obtain conv where "find (\<lambda>conv. id_conv conv = conversationId) (history s) = Some conv"
    using find_id_in_history [OF assms] by blast
  then show ?thesis
    by (simp add: handleDeleteConversation_def Let_def)
qed

theorem delete_partial_failure_witness:
  "IdNum 42 \<in> id_conv ` set (history open_conversation_state)
   \<and> handleDeleteConversation (IdNum 42) True None (Some (lit ''denied'')) open_conversation_state
     = (open_conversation_state,
        [Confirm (lit ''Are you sure you want to delete the chat: \"q\"?''),
         DeleteMessages (IdNum 42), DeleteConversationRow (IdNum 42),
         ConsoleError (lit ''Error deleting conversation:'') (lit ''denied''),
         Alert (lit ''Failed to delete chat: denied'')])"
  using delete_partial_failure [of "IdNum 42" open_conversation_state "lit ''denied''"]
  by (simp add: handleDeleteConversation_def open_conversation_state_def conversation_42_def lit_def)

text \<open>
  Claim C10.  When \<open>loadConversation\<close> is called with a truthy id while no load is in
  flight and the fetch fails (the fetch is rejected, the response is not ok, or reading
  the response's JSON fails, as it does for an error page that is not JSON), the
  message sequence becomes exactly one \<open>ai\<close> entry describing the failure, and the active
  conversation id is the requested id all the same.  Called with a falsy id, or while a
  load is in flight, \<open>loadConversation\<close> changes nothing and issues no call.
\<close>

theorem loadConversation_failure:
  "(truthy_id conversationId \<and> \<not> isLoadingConversation s \<longrightarrow>
      messages (fst (loadConversation conversationId (ConvFetchRejected msg) s))
        = [\<lparr>role = lit ''ai'', content = lit ''Failed to load conversation: '' @ msg\<rparr>]
    \<and> currentConversationId (fst (loadConversation conversationId (ConvFetchRejected msg) s))
        = conversationId
    \<and> messages (fst (loadConversation conversationId (ConvNotOk detail) s))
        = [\<lparr>role = lit ''ai'',
            content = lit ''Failed to load conversation: ''
                        @ or_default detail (lit ''Failed to load messages.'')\<rparr>]
    \<and> currentConversationId (fst (loadConversation conversationId (ConvNotOk detail) s))
        = conversationId
    \<and> messages (fst (loadConversation conversationId (ConvJsonRejected msg) s))
        = [\<lparr>role = lit ''ai'', content = lit ''Failed to load conversation: '' @ msg\<rparr>]
    \<and> currentConversationId (fst (loadConversation conversationId (ConvJsonRejected msg) s))
        = conversationId)
   \<and> (\<not> truthy_id conversationId \<or> isLoadingConversation s \<longrightarrow>
        loadConversation conversationId answer s = (s, []))"
  by (auto simp: loadConversation_def Let_def)

theorem loadConversation_failure_witness:
  "truthy_id (IdNum 42) \<and> \<not> isLoadingConversation new_session_state
   \<and> messages (fst (loadConversation (IdNum 42) (ConvNotOk (Some (lit ''gone''))) new_session_state))
       = [\<lparr>role = lit ''ai'', content = lit ''Failed to load conversation: gone''\<rparr>]
   \<and> currentConversationId
        (fst (loadConversation (IdNum 42) (ConvNotOk (Some (lit ''gone''))) new_session_state))
       = IdNum 42
   \<and> messages (fst (loadConversation (IdNum 42) (ConvJsonRejected (lit ''bad'')) new_session_state))
       = [\<lparr>role = lit ''ai'', content = lit ''Failed to load conversation: bad''\<rparr>]
   \<and> currentConversationId
        (fst (loadConversation (IdNum 42) (ConvJsonRejected (lit ''bad'')) new_session_state))
       = IdNum 42
   \<and> \<not> truthy_id (IdStr [])
   \<and> loadConversation (IdStr []) (ConvOk []) new_session_state = (new_session_state, [])"
  using loadConversation_failure [of "IdNum 42" new_session_state "lit ''bad''" "Some (lit ''gone'')" "ConvOk []"]
    loadConversation_failure [of "IdStr []" new_session_state "lit ''bad''" None "ConvOk []"]
  by (simp add: new_session_state_def or_default_def lit_def)

section \<open>What the stream leaves on screen\<close>

text \<open>
  Claim C1, as amended.  For every finite sequence of chunks read to the end of the
  stream, the trailing \<open>ai\<close> entry holds what the streaming decoder returns for the
  concatenation of the chunks, however the chunk boundaries fall.  The UTF-8 decoding of
  the concatenation is that text, followed by one U+FFFD when the stream ends inside a
  multi-byte character: the decoder is never flushed, so the two are equal exactly when
  the stream does not end inside a character.
\<close>

theorem stream_final_content:
  assumes "session s = Some sess" "query s \<noteq> []" "\<not> isLoading s" "response_ok status"
  shows "last (messages (fst (handleResearch s (Response status json (Body chunks Done)) historyAnswer)))
           = \<lparr>role = lit ''ai'', content = stream_text (concat chunks)\<rparr>
       \<and> utf8_decode (concat chunks)
           = stream_text (concat chunks)
             @ (if ends_inside_character (concat chunks) then [0xFFFD] else [])
       \<and> (\<not> ends_inside_character (concat chunks) \<longrightarrow>
            content (last (messages (fst (handleResearch s
               (Response status json (Body chunks Done)) historyAnswer))))
              = utf8_decode (concat chunks))"
  using assms(4)
  by (simp add: handleResearch_messages_cases [OF assms(1-3)] utf8_decode_stream_text)

theorem stream_final_content_witness:
  "session new_session_state = Some \<lparr>user_id = lit ''u1''\<rparr>
   \<and> query new_session_state \<noteq> [] \<and> \<not> isLoading new_session_state \<and> response_ok 200
   \<and> \<not> ends_inside_character (concat [[0xE2], [0x82, 0xAC], [0x48, 0x69]])
   \<and> utf8_decode (concat [[0xE2], [0x82, 0xAC], [0x48, 0x69]]) = [0x20AC, 0x48, 0x69]
   \<and> content (last (messages (fst (handleResearch new_session_state
         (Response 200 JsonRejected (Body [[0xE2], [0x82, 0xAC], [0x48, 0x69]] Done))
         (HistoryData None)))))
       = [0x20AC, 0x48, 0x69]"
proof -
  have g: "session new_session_state = Some \<lparr>user_id = lit ''u1''\<rparr>"
    "query new_session_state \<noteq> []" "\<not> isLoading new_session_state" "response_ok 200"
    by (simp_all add: new_session_state_def lit_def response_ok_def)
  have e: "\<not> ends_inside_character (concat [[0xE2], [0x82, 0xAC], [0x48, 0x69]])"
    by (simp add: ends_inside_character_def last_bytes_def lead_needed_def)
  have d: "utf8_decode (concat [[0xE2], [0x82, 0xAC], [0x48, 0x69]]) = [0x20AC, 0x48, 0x69]"
    by (simp add: utf8_decode_def decode_def new_TextDecoder_def new_utf8_decoder_def
        utf8_handler_def handler_lead_def utf8_end_of_queue_def serialize_def utf16_def)
  show ?thesis
    using stream_final_content [OF g, of JsonRejected "[[0xE2], [0x82, 0xAC], [0x48, 0x69]]" "HistoryData None"]
      g e d
    by simp
qed

text \<open>
  The claim as stated fails for a stream that ends after the first two bytes of a
  three-byte character: the page shows nothing, the decoding of the bytes is U+FFFD.
\<close>

theorem stream_final_content_counterexample:
  "content (last (messages (fst (handleResearch new_session_state
       (Response 200 JsonRejected (Body [[0xE2, 0x82]] Done)) (HistoryData None)))))
     \<noteq> utf8_decode (concat [[0xE2, 0x82]])"
proof -
  have g: "session new_session_state = Some \<lparr>user_id = lit ''u1''\<rparr>"
    "query new_session_state \<noteq> []" "\<not> isLoading new_session_state"
    by (simp_all add: new_session_state_def lit_def)
  have s: "stream_text (concat [[0xE2, 0x82]]) = []"
    by (simp add: stream_text_def decode_def new_TextDecoder_def new_utf8_decoder_def
        utf8_handler_def handler_lead_def serialize_def utf16_def)
  have d: "utf8_decode (concat [[0xE2, 0x82]]) = [0xFFFD]"
    by (simp add: utf8_decode_def decode_def new_TextDecoder_def new_utf8_decoder_def
        utf8_handler_def handler_lead_def utf8_end_of_queue_def serialize_def utf16_def)
  show ?thesis
    using s d by (simp add: handleResearch_messages_cases [OF g] response_ok_def)
qed

section \<open>Sends that end in an error\<close>

text \<open>
  Claim C6.  When the backend answers the research request with status 500 and the body
  \<open>{"detail":"overloaded"}\<close>, the last entry of the message sequence after
  \<open>handleResearch\<close> completes is an \<open>ai\<close> entry whose content is the error text built
  from the detail, and so contains \<open>overloaded\<close>.
\<close>

theorem http_500_overloaded:
  assumes "session s = Some sess" "query s \<noteq> []" "\<not> isLoading s"
  shows "last (messages (fst (handleResearch s
           (Response 500 (JsonDetail (Some (lit ''overloaded''))) body) historyAnswer)))
         = \<lparr>role = lit ''ai'',
            content = lit ''Error: '' @ lit ''overloaded'' @ [10, 10]
                        @ lit ''There was an issue connecting to the AI service.''\<rparr>
       \<and> (\<exists>pre suf.
            content (last (messages (fst (handleResearch s
              (Response 500 (JsonDetail (Some (lit ''overloaded''))) body) historyAnswer))))
            = pre @ lit ''overloaded'' @ suf)"
proof -
  let ?final = "last (messages (fst (handleResearch s
           (Response 500 (JsonDetail (Some (lit ''overloaded''))) body) historyAnswer)))"
  have final: "?final = \<lparr>role = lit ''ai'',
            content = lit ''Error: '' @ lit ''overloaded'' @ [10, 10]
                        @ lit ''There was an issue connecting to the AI service.''\<rparr>"
    unfolding handleResearch_messages_cases [OF assms]
    by (simp add: response_ok_def http_error_body_def or_default_def errorMessage_def lit_def)
  have "content ?final = lit ''Error: '' @ lit ''overloaded''
          @ ([10, 10] @ lit ''There was an issue connecting to the AI service.'')"
    unfolding final by simp
  then have "\<exists>pre suf. content ?final = pre @ lit ''overloaded'' @ suf"
    by blast
  with final show ?thesis by (rule conjI)
qed

theorem http_500_overloaded_witness:
  "session new_session_state = Some \<lparr>user_id = lit ''u1''\<rparr>
   \<and> query new_session_state \<noteq> [] \<and> \<not> isLoading new_session_state
   \<and> last (messages (fst (handleResearch new_session_state
         (Response 500 (JsonDetail (Some (lit ''overloaded''))) (NoBody [])) (HistoryData (Some [])))))
      = \<lparr>role = lit ''ai'',
         content = lit ''Error: '' @ lit ''overloaded'' @ [10, 10]
                     @ lit ''There was an issue connecting to the AI service.''\<rparr>"
proof -
  have g: "session new_session_state = Some \<lparr>user_id = lit ''u1''\<rparr>"
    "query new_session_state \<noteq> []" "\<not> isLoading new_session_state"
    by (simp_all add: new_session_state_def lit_def)
  show ?thesis
    using http_500_overloaded [OF g, of "NoBody []" "HistoryData (Some [])"] g by simp
qed

text \<open>
  Claim C4, as amended.  When a send ends in an error before streaming (the fetch is
  rejected, or the response is not ok), the \<open>ai\<close> placeholder is replaced by the
  formatted error message.  The history is refetched all the same exactly when the send
  was started without an active conversation id (and the session has a user id): the
  resync sits in the \<open>finally\<close> block and does not depend on the outcome.
\<close>

theorem send_error_replaces_placeholder:
  assumes "session s = Some sess" "query s \<noteq> []" "\<not> isLoading s"
  shows "messages (fst (handleResearch s (FetchRejected msg) historyAnswer))
           = messages s @ [\<lparr>role = lit ''user'', content = query s\<rparr>, errorMessage msg]
       \<and> (SelectHistory (user_id sess) \<in> set (snd (handleResearch s (FetchRejected msg) historyAnswer)))
           = (\<not> truthy_id (currentConversationId s) \<and> user_id sess \<noteq> [])
       \<and> (\<not> response_ok status \<longrightarrow>
            messages (fst (handleResearch s (Response status json body) historyAnswer))
              = messages s @ [\<lparr>role = lit ''user'', content = query s\<rparr>,
                              errorMessage (http_error_body status json)]
          \<and> (SelectHistory (user_id sess)
                \<in> set (snd (handleResearch s (Response status json body) historyAnswer)))
              = (\<not> truthy_id (currentConversationId s) \<and> user_id sess \<noteq> []))"
  by (simp add: handleResearch_messages_cases [OF assms] handleResearch_resync [OF assms])

theorem send_error_replaces_placeholder_witness:
  "session new_session_state = Some \<lparr>user_id = lit ''u1''\<rparr>
   \<and> query new_session_state \<noteq> [] \<and> \<not> isLoading new_session_state
   \<and> \<not> response_ok 500
   \<and> messages (fst (handleResearch new_session_state
         (Response 500 JsonRejected (NoBody [])) (HistoryData (Some []))))
       = [\<lparr>role = lit ''user'', content = lit ''hello''\<rparr>,
          errorMessage (lit ''HTTP error! status: 500'')]
   \<and> SelectHistory (lit ''u1'')
        \<in> set (snd (handleResearch new_session_state
              (Response 500 JsonRejected (NoBody [])) (HistoryData (Some []))))"
proof -
  have g: "session new_session_state = Some \<lparr>user_id = lit ''u1''\<rparr>"
    "query new_session_state \<noteq> []" "\<not> isLoading new_session_state"
    by (simp_all add: new_session_state_def lit_def)
  have n: "\<not> response_ok 500" by (simp add: response_ok_def)
  have d: "decimal 500 = lit ''500''" by (simp add: decimal.simps lit_def)
  have b: "http_error_body 500 JsonRejected = lit ''HTTP error! status: 500''"
    by (simp add: http_error_body_def d lit_def)
  have m: "messages new_session_state = []" "query new_session_state = lit ''hello''"
    "currentConversationId new_session_state = IdNull"
    by (simp_all add: new_session_state_def)
  show ?thesis
    using send_error_replaces_placeholder [OF g, of "lit ''x''" "HistoryData (Some [])" 500
        JsonRejected "NoBody []"] g n
    by (simp add: b m lit_def)
qed

text \<open>
  The claim as stated fails for a rejected fetch in a new session: the history query is
  issued.
\<close>

theorem send_error_counterexample:
  "SelectHistory (lit ''u1'')
     \<in> set (snd (handleResearch new_session_state (FetchRejected (lit ''Failed to fetch''))
                   (HistoryData (Some []))))"
  by (simp add: new_session_state_def handleResearch_def research_settle_def research_begin_def research_try_def
      fetchHistory_def Let_def lit_def)

section \<open>The first send of a new session\<close>

text \<open>
  Claim C7.  For every send started without an active conversation id, by a session
  whose user id is not empty, and for every answer of the backend: the history query is
  issued, the local history becomes the rows the database returns, and when there is at
  least one row the active conversation id becomes the id of the first (newest) row.
\<close>

theorem new_session_resync:
  assumes "session s = Some sess" "query s \<noteq> []" "\<not> isLoading s"
    and "\<not> truthy_id (currentConversationId s)" "user_id sess \<noteq> []"
  shows "SelectHistory (user_id sess)
           \<in> set (snd (handleResearch s answer (HistoryData (Some rows))))
       \<and> history (fst (handleResearch s answer (HistoryData (Some rows)))) = rows
       \<and> (rows \<noteq> [] \<longrightarrow>
            currentConversationId (fst (handleResearch s answer (HistoryData (Some rows))))
              = id_conv (hd rows))"
  using handleResearch_resync [OF assms(1-3), of answer "HistoryData (Some rows)"]
    handleResearch_history [OF assms, of answer rows] assms(4,5)
  by (cases rows) simp_all

theorem new_session_resync_witness:
  "session new_session_state = Some \<lparr>user_id = lit ''u1''\<rparr>
   \<and> query new_session_state \<noteq> [] \<and> \<not> isLoading new_session_state
   \<and> \<not> truthy_id (currentConversationId new_session_state)
   \<and> user_id \<lparr>user_id = lit ''u1''\<rparr> \<noteq> []
   \<and> [conversation_42] \<noteq> []
   \<and> history (fst (handleResearch new_session_state
         (Response 200 JsonRejected (Body [[0x48, 0x69]] Done)) (HistoryData (Some [conversation_42]))))
       = [conversation_42]
   \<and> currentConversationId (fst (handleResearch new_session_state
         (Response 200 JsonRejected (Body [[0x48, 0x69]] Done)) (HistoryData (Some [conversation_42]))))
       = IdNum 42"
  using new_session_resync [of new_session_state "\<lparr>user_id = lit ''u1''\<rparr>"
      "Response 200 JsonRejected (Body [[0x48, 0x69]] Done)" "[conversation_42]"]
  by (simp add: new_session_state_def conversation_42_def lit_def)

end
